theory Spec2Isabelle
  imports Complex_Main "HOL-Library.Multiset"
begin

section \<open>Python text primitives\<close>

text \<open>
  Text is a list of characters over the code points 0..255. On that range
  \<^verbatim>\<open>str.isspace\<close> holds for exactly the twelve characters of \<open>whitespace\<close>, and
  \<^verbatim>\<open>str.lower\<close> moves exactly the letters of \<open>upper_chars\<close> to the letter at the
  same position of \<open>lower_chars\<close>.
\<close>

definition whitespace :: "char list" where
  "whitespace =
     [CHR 0x09, CHR 0x0A, CHR 0x0B, CHR 0x0C, CHR 0x0D, CHR 0x1C, CHR 0x1D, CHR 0x1E,
      CHR 0x1F, CHR 0x20, CHR 0x85, CHR 0xA0]"

definition isspace :: "char \<Rightarrow> bool" where
  "isspace c = (c \<in> set whitespace)"

definition upper_chars :: "char list" where
  "upper_chars = ''ABCDEFGHIJKLMNOPQRSTUVWXYZ'' @
     [CHR 0xC0, CHR 0xC1, CHR 0xC2, CHR 0xC3, CHR 0xC4, CHR 0xC5, CHR 0xC6, CHR 0xC7,
      CHR 0xC8, CHR 0xC9, CHR 0xCA, CHR 0xCB, CHR 0xCC, CHR 0xCD, CHR 0xCE, CHR 0xCF,
      CHR 0xD0, CHR 0xD1, CHR 0xD2, CHR 0xD3, CHR 0xD4, CHR 0xD5, CHR 0xD6, CHR 0xD8,
      CHR 0xD9, CHR 0xDA, CHR 0xDB, CHR 0xDC, CHR 0xDD, CHR 0xDE]"

definition lower_chars :: "char list" where
  "lower_chars = ''abcdefghijklmnopqrstuvwxyz'' @
     [CHR 0xE0, CHR 0xE1, CHR 0xE2, CHR 0xE3, CHR 0xE4, CHR 0xE5, CHR 0xE6, CHR 0xE7,
      CHR 0xE8, CHR 0xE9, CHR 0xEA, CHR 0xEB, CHR 0xEC, CHR 0xED, CHR 0xEE, CHR 0xEF,
      CHR 0xF0, CHR 0xF1, CHR 0xF2, CHR 0xF3, CHR 0xF4, CHR 0xF5, CHR 0xF6, CHR 0xF8,
      CHR 0xF9, CHR 0xFA, CHR 0xFB, CHR 0xFC, CHR 0xFD, CHR 0xFE]"

definition lower_char :: "char \<Rightarrow> char" where
  "lower_char c = (case map_of (zip upper_chars lower_chars) c of None \<Rightarrow> c | Some d \<Rightarrow> d)"

definition lower :: "string \<Rightarrow> string" where
  \<comment> \<open>\<^verbatim>\<open>s.lower()\<close>\<close>
  "lower s = map lower_char s"

definition strip :: "string \<Rightarrow> string" where
  \<comment> \<open>\<^verbatim>\<open>s.strip()\<close>: whitespace is dropped at both ends\<close>
  "strip s = rev (dropWhile isspace (rev (dropWhile isspace s)))"

fun split_from :: "string \<Rightarrow> string \<Rightarrow> string list" where
  "split_from cur [] = (if cur = [] then [] else [cur])"
| "split_from cur (c # cs) =
     (if isspace c then (if cur = [] then split_from [] cs else cur # split_from [] cs)
      else split_from (cur @ [c]) cs)"

definition split :: "string \<Rightarrow> string list" where
  \<comment> \<open>\<^verbatim>\<open>s.split()\<close>: the maximal runs of characters that are not whitespace\<close>
  "split s = split_from [] s"

fun join :: "string list \<Rightarrow> string" where
  \<comment> \<open>\<^verbatim>\<open>" ".join(ws)\<close>\<close>
  "join [] = []"
| "join [w] = w"
| "join (w # v # ws) = w @ '' '' @ join (v # ws)"

fun contains :: "string \<Rightarrow> string \<Rightarrow> bool" where
  \<comment> \<open>\<^verbatim>\<open>sub in s\<close>: \<open>sub\<close> occurs in \<open>s\<close> as a contiguous run\<close>
  "contains sub [] = (sub = [])"
| "contains sub (c # cs) = (take (length sub) (c # cs) = sub \<or> contains sub cs)"

function replace :: "string \<Rightarrow> string \<Rightarrow> string \<Rightarrow> string" where
  \<comment> \<open>\<^verbatim>\<open>s.replace(old, new)\<close>: the occurrences of \<open>old\<close> are replaced from the left,
     without overlap\<close>
  "replace old new [] = (if old = [] then new else [])"
| "replace old new (c # cs) =
     (if old = [] then new @ c # replace old new cs
      else if take (length old) (c # cs) = old
           then new @ replace old new (drop (length old) (c # cs))
           else c # replace old new cs)"
  by pat_completeness auto
termination
  by (relation "measure (\<lambda>(old, new, s). length s)") auto

section \<open>Query normalizer: \<^verbatim>\<open>clean_medical_query\<close>\<close>

definition words_to_remove :: "string list" where
  "words_to_remove =
     [''what are the'', ''what is the'', ''what are'', ''what is'',
      ''how do'', ''how does'', ''how can'', ''how to'',
      ''when should'', ''when do'', ''when is'',
      ''why do'', ''why does'', ''why is'',
      ''where do'', ''where does'', ''where is'']"

definition medical_stopwords :: "string list" where
  "medical_stopwords = [''a'', ''an'', ''the'', ''of'', ''at'', ''by'']"

definition query_lower :: "string \<Rightarrow> string" where
  "query_lower query = strip (lower query)"

definition cleaned :: "string \<Rightarrow> string" where
  \<comment> \<open>the loop \<^verbatim>\<open>for phrase in words_to_remove: cleaned = cleaned.replace(phrase, "")\<close>\<close>
  "cleaned query = foldl (\<lambda>acc phrase. replace phrase [] acc) (query_lower query) words_to_remove"

definition cleaned_words :: "string \<Rightarrow> string list" where
  \<comment> \<open>\<^verbatim>\<open>words = cleaned.split()\<close>\<close>
  "cleaned_words query = split (cleaned query)"

definition filtered_words :: "string \<Rightarrow> string list" where
  \<comment> \<open>\<^verbatim>\<open>[word for word in words if word not in medical_stopwords or len(words) <= 3]\<close>\<close>
  "filtered_words query =
     filter (\<lambda>word. word \<notin> set medical_stopwords \<or> length (cleaned_words query) \<le> 3)
       (cleaned_words query)"

definition cleaned_result :: "string \<Rightarrow> string" where
  \<comment> \<open>\<^verbatim>\<open>result = " ".join(filtered_words).strip()\<close>\<close>
  "cleaned_result query = strip (join (filtered_words query))"

definition fallback_words :: "string \<Rightarrow> string list" where
  \<comment> \<open>\<^verbatim>\<open>query_lower.replace("what are the", "").replace("what is the", "").split()\<close>\<close>
  "fallback_words query =
     split (replace ''what is the'' [] (replace ''what are the'' [] (query_lower query)))"

definition clean_medical_query :: "string \<Rightarrow> string" where
  "clean_medical_query query =
     (if length (split (cleaned_result query)) < 2
      then join (take 6 (fallback_words query))
      else cleaned_result query)"

section \<open>Lexical relevance scorer\<close>

text \<open>
  An article is a Python dict with string keys. Its values are strings, floats (the
  \<^verbatim>\<open>relevance_score\<close> annotation) or \<^verbatim>\<open>None\<close>. Every weight of the scorer is a
  multiple of one half, so the float sums are exact and a score is modelled as a real.
\<close>

datatype pyval = PStr string | PFloat real | PNone

type_synonym article = "string \<rightharpoonup> pyval"

datatype error = AttributeError | KeyError | IndexError

definition get_lower :: "article \<Rightarrow> string \<Rightarrow> error + string" where
  \<comment> \<open>\<^verbatim>\<open>article.get(key, '').lower()\<close>; a value that is not a string has no \<^verbatim>\<open>lower\<close>\<close>
  "get_lower article key =
     (case article key of
        None \<Rightarrow> Inr (lower [])
      | Some (PStr s) \<Rightarrow> Inr (lower s)
      | Some _ \<Rightarrow> Inl AttributeError)"

definition term_step :: "string \<Rightarrow> string \<Rightarrow> real \<Rightarrow> string \<Rightarrow> real" where
  \<comment> \<open>one round of \<^verbatim>\<open>for term in medical_terms\<close>\<close>
  "term_step title abstract score term =
     (if contains term title then score + 3.0
      else if contains term abstract then score + 1.5
      else score)"

definition score_text :: "string \<Rightarrow> string \<Rightarrow> string set \<Rightarrow> string list \<Rightarrow> string \<Rightarrow> real" where
  \<comment> \<open>the body of \<^verbatim>\<open>calculate_relevance_score\<close> once title and abstract are read\<close>
  "score_text title abstract query_words medical_terms full_query =
     (let score = 0.0;
          score = (if contains full_query title then score + 10.0
                   else if contains full_query abstract then score + 5.0
                   else score);
          score = foldl (term_step title abstract) score medical_terms;
          title_words = set (split title);
          abstract_words = set (split abstract);
          title_matches = card (query_words \<inter> title_words);
          score = score + real title_matches * 2.0;
          abstract_matches = card (query_words \<inter> abstract_words);
          score = score + real abstract_matches * 0.5;
          score = (if abstract \<noteq> [] \<and> abstract \<noteq> ''no abstract available''
                   then score + 1.0 else score);
          score = score + 0.5
      in score)"

definition calculate_relevance_score ::
  "article \<Rightarrow> string set \<Rightarrow> string list \<Rightarrow> string \<Rightarrow> error + real" where
  "calculate_relevance_score article query_words medical_terms full_query =
     (case get_lower article ''title'' of
        Inl e \<Rightarrow> Inl e
      | Inr title \<Rightarrow>
          (case get_lower article ''abstract'' of
             Inl e \<Rightarrow> Inl e
           | Inr abstract \<Rightarrow>
               Inr (score_text title abstract query_words medical_terms full_query)))"

definition reference_score ::
  "string \<Rightarrow> string \<Rightarrow> string set \<Rightarrow> string list \<Rightarrow> string \<Rightarrow> real" where
  \<comment> \<open>the scoring formula in the words of the specification, over the lowercased title
     and abstract\<close>
  "reference_score title abstract query_words medical_terms full_query =
     (if contains full_query title then 10 else if contains full_query abstract then 5 else 0)
     + (\<Sum>term\<leftarrow>medical_terms.
          if contains term title then 3 else if contains term abstract then 3 / 2 else 0)
     + 2 * real (card {w \<in> query_words. w \<in> set (split title)})
     + real (card {w \<in> query_words. w \<in> set (split abstract)}) / 2
     + (if abstract \<noteq> [] \<and> abstract \<noteq> ''no abstract available'' then 1 else 0)
     + 1 / 2"

definition medical_phrases :: "string list" where
  "medical_phrases =
     [''type 2 diabetes'', ''type 1 diabetes'',
      ''first-line treatment'', ''second-line treatment'',
      ''side effects'', ''adverse effects'',
      ''contraindications'', ''drug interactions'',
      ''ace inhibitors'', ''beta blockers'',
      ''blood pressure'', ''heart failure'',
      ''clinical trial'', ''systematic review'',
      ''meta-analysis'', ''guidelines'']"

definition important_words :: "string list" where
  "important_words =
     [''diabetes'', ''hypertension'', ''metformin'', ''insulin'',
      ''treatment'', ''therapy'', ''medication'', ''drug'',
      ''elderly'', ''pediatric'', ''pregnancy'', ''renal'',
      ''cardiovascular'', ''nephropathy'', ''retinopathy'']"

definition extract_medical_terms :: "string \<Rightarrow> string list" where
  \<comment> \<open>\<^verbatim>\<open>list(set(found_terms))\<close> lists each found term once, in an order Python does not
     fix; the model lists them in the order of their last occurrence\<close>
  "extract_medical_terms query =
     (let found_terms = filter (\<lambda>phrase. contains phrase query) medical_phrases;
          query_words = split query;
          found_terms = found_terms @ filter (\<lambda>word. word \<in> set query_words) important_words
      in remdups found_terms)"

section \<open>Scoring a list of articles: the object store\<close>

text \<open>
  \<^verbatim>\<open>score_articles_by_relevance\<close> copies dicts and fills a new list, so dict and list
  objects are kept in a store and named by their position in it. A new object is put at
  the end of the store.
\<close>

record store =
  dicts :: "article list"
  lists :: "nat list list"

definition py_sort_reverse :: "('a \<Rightarrow> real) \<Rightarrow> 'a list \<Rightarrow> 'a list" where
  \<comment> \<open>\<^verbatim>\<open>xs.sort(key=f, reverse=True)\<close>: the list is reversed, sorted by a stable ascending
     sort and reversed again, which keeps records of equal key in their first order\<close>
  "py_sort_reverse f xs = rev (sort_key f (rev xs))"

definition relevance :: "article list \<Rightarrow> nat \<Rightarrow> real" where
  \<comment> \<open>the sort key \<^verbatim>\<open>x['relevance_score']\<close> of the dict at an address; every dict of the
     sorted list has had the key set to a float\<close>
  "relevance ds x = (case (ds ! x) ''relevance_score'' of Some (PFloat r) \<Rightarrow> r | _ \<Rightarrow> 0)"

fun score_loop ::
  "string set \<Rightarrow> string list \<Rightarrow> string \<Rightarrow> nat \<Rightarrow> nat list \<Rightarrow> store \<Rightarrow> error option \<times> store" where
  \<comment> \<open>\<^verbatim>\<open>for article in articles\<close>, with \<open>scored_articles\<close> the address of the list being
     filled\<close>
  "score_loop query_words medical_terms query_lc scored_articles [] s = (None, s)"
| "score_loop query_words medical_terms query_lc scored_articles (article # rest) s =
     (case calculate_relevance_score (dicts s ! article) query_words medical_terms query_lc of
        Inl e \<Rightarrow> (Some e, s)
      | Inr score \<Rightarrow>
          (let article_copy = length (dicts s);
               s = s\<lparr>dicts := dicts s @ [dicts s ! article]\<rparr>;
               s = s\<lparr>dicts := (dicts s)[article_copy :=
                      (dicts s ! article_copy)(''relevance_score'' \<mapsto> PFloat score)]\<rparr>;
               s = s\<lparr>lists := (lists s)[scored_articles :=
                      lists s ! scored_articles @ [article_copy]]\<rparr>
           in score_loop query_words medical_terms query_lc scored_articles rest s))"

definition score_articles_by_relevance :: "store \<Rightarrow> nat \<Rightarrow> string \<Rightarrow> (error + nat) \<times> store" where
  \<comment> \<open>\<open>articles\<close> is the address of the input list; the result is the exception raised or
     the address of the returned list, with the store as the call leaves it\<close>
  "score_articles_by_relevance s articles original_query =
     (let query_lc = lower original_query;
          query_words = set (split query_lc);
          medical_terms = extract_medical_terms query_lc;
          scored_articles = length (lists s);
          s = s\<lparr>lists := lists s @ [[]]\<rparr>
      in case score_loop query_words medical_terms query_lc scored_articles (lists s ! articles) s of
           (Some e, s) \<Rightarrow> (Inl e, s)
         | (None, s) \<Rightarrow>
             (Inr scored_articles,
              s\<lparr>lists := (lists s)[scored_articles :=
                   py_sort_reverse (relevance (dicts s)) (lists s ! scored_articles)]\<rparr>))"

definition without_stopwords :: "string list \<Rightarrow> string list" where
  \<comment> \<open>a word list with every stopword taken out\<close>
  "without_stopwords ws = filter (\<lambda>word. word \<notin> set medical_stopwords) ws"

definition proper_word :: "string \<Rightarrow> bool" where
  \<comment> \<open>a word as \<open>split\<close> produces it: not empty, no whitespace inside\<close>
  "proper_word w = (w \<noteq> [] \<and> \<not> list_ex isspace w)"

section \<open>Article fetcher: the merge of the two search strategies\<close>

text \<open>
  \<^verbatim>\<open>search_pubmed_articles\<close> talks to the literature service and always returns a list
  (it catches every exception). What it returns is a parameter \<open>search\<close> of the model,
  applied to the cleaned query, the requested count and the sort key.
\<close>

type_synonym search = "string \<Rightarrow> int \<Rightarrow> string \<Rightarrow> article list"

definition subscript :: "article \<Rightarrow> string \<Rightarrow> error + pyval" where
  \<comment> \<open>\<^verbatim>\<open>a[key]\<close>\<close>
  "subscript a key = (case a key of None \<Rightarrow> Inl KeyError | Some v \<Rightarrow> Inr v)"

fun existing_pmids :: "article list \<Rightarrow> error + pyval set" where
  \<comment> \<open>\<^verbatim>\<open>{a['pmid'] for a in all_articles}\<close>\<close>
  "existing_pmids [] = Inr {}"
| "existing_pmids (a # rest) =
     (case subscript a ''pmid'' of
        Inl e \<Rightarrow> Inl e
      | Inr pmid \<Rightarrow>
          (case existing_pmids rest of Inl e \<Rightarrow> Inl e | Inr pmids \<Rightarrow> Inr (insert pmid pmids)))"

fun new_articles :: "pyval set \<Rightarrow> article list \<Rightarrow> error + article list" where
  \<comment> \<open>\<^verbatim>\<open>[a for a in articles_recent if a['pmid'] not in existing_pmids]\<close>\<close>
  "new_articles existing [] = Inr []"
| "new_articles existing (a # rest) =
     (case subscript a ''pmid'' of
        Inl e \<Rightarrow> Inl e
      | Inr pmid \<Rightarrow>
          (case new_articles existing rest of
             Inl e \<Rightarrow> Inl e
           | Inr kept \<Rightarrow> Inr (if pmid \<notin> existing then a # kept else kept)))"

definition all_articles :: "search \<Rightarrow> string \<Rightarrow> int \<Rightarrow> error + article list" where
  \<comment> \<open>the list \<open>all_articles\<close> of \<^verbatim>\<open>get_pubmed_articles\<close> when scoring starts\<close>
  "all_articles search query max_results =
     (let cleaned_query = clean_medical_query query;
          initial_fetch = min (max_results * 3) 15;
          articles_primary = search cleaned_query initial_fetch ''relevance'';
          collected = (if articles_primary \<noteq> [] then articles_primary else [])
      in if int (length collected) < initial_fetch
         then (let articles_recent =
                     search cleaned_query (initial_fetch - int (length collected)) ''pub_date''
               in if articles_recent \<noteq> []
                  then (case existing_pmids collected of
                          Inl e \<Rightarrow> Inl e
                        | Inr existing \<Rightarrow>
                            (case new_articles existing articles_recent of
                               Inl e \<Rightarrow> Inl e
                             | Inr new \<Rightarrow> Inr (collected @ new)))
                  else Inr collected)
         else Inr collected)"

definition py_slice_to :: "int \<Rightarrow> 'a list \<Rightarrow> 'a list" where
  \<comment> \<open>\<^verbatim>\<open>xs[:n]\<close>; a negative \<open>n\<close> counts from the end\<close>
  "py_slice_to n xs = (if 0 \<le> n then take (nat n) xs else take (length xs - nat (- n)) xs)"

definition get_pubmed_articles :: "search \<Rightarrow> string \<Rightarrow> int \<Rightarrow> error + article list" where
  \<comment> \<open>the fetched dicts are the objects of a fresh store; the result lists the returned
     dicts by value\<close>
  "get_pubmed_articles search query max_results =
     (case all_articles search query max_results of
        Inl e \<Rightarrow> Inl e
      | Inr fetched \<Rightarrow>
          if fetched = [] then Inr []
          else (case score_articles_by_relevance
                       \<lparr>dicts = fetched, lists = [[0 ..< length fetched]]\<rparr> 0 query of
                  (Inl e, s) \<Rightarrow> Inl e
                | (Inr scored_articles, s) \<Rightarrow>
                    Inr (map ((!) (dicts s)) (py_slice_to max_results (lists s ! scored_articles)))))"

section \<open>HTTP client: \<^verbatim>\<open>make_request_with_retry\<close>\<close>

text \<open>
  The service is a parameter of the model: \<open>http n\<close> is what the call
  \<^verbatim>\<open>requests.get(url, params=params, timeout=20)\<close> does when it is made for the \<open>n\<close>-th
  time (counted from 0): it raises, or it returns a response. A response carries its
  status code, the text of the \<^verbatim>\<open>HTTPError\<close> that \<^verbatim>\<open>raise_for_status\<close> raises for an
  error status, and what \<^verbatim>\<open>response.json()\<close> does. The input/output record counts the
  calls made and lists the seconds slept.
\<close>

datatype exn = RequestException string | JSONDecodeError string | OtherException string

record 'a response =
  status_code :: int
  http_error_text :: string
  json :: "exn + 'a"

datatype 'a get_result = Raises exn | Returns "'a response"


datatype 'a returned = Json 'a | Response "'a response"

datatype 'a step = Continue | Return "'a returned option" | Raise exn


definition raise_for_status :: "'a response \<Rightarrow> exn option" where
  \<comment> \<open>an \<^verbatim>\<open>HTTPError\<close>, which is a \<^verbatim>\<open>RequestException\<close>, for a status from 400 to 599\<close>
  "raise_for_status response =
     (if 400 \<le> status_code response \<and> status_code response < 600
      then Some (RequestException (http_error_text response)) else None)"

definition handler :: "int \<Rightarrow> nat \<Rightarrow> exn \<Rightarrow> 'a step" where
  \<comment> \<open>the \<^verbatim>\<open>except\<close> clauses, in their order; any other exception leaves the function\<close>
  "handler max_retries attempt e =
     (case e of
        RequestException msg \<Rightarrow>
          if contains ''429'' msg
          then (if int attempt < max_retries - 1 then Continue else Return None)
          else Return None
      | JSONDecodeError msg \<Rightarrow> Return None
      | OtherException msg \<Rightarrow> Raise e)"




section \<open>Semantic search: \<^verbatim>\<open>search_similar_documents\<close>\<close>

text \<open>
  The embedding model and the nearest-neighbour index are outside the repository. The
  index is a parameter: applied to the query and \<open>k\<close> it raises (\<open>None\<close>) or returns the
  rows \<^verbatim>\<open>distances[0]\<close> and \<^verbatim>\<open>indices[0]\<close>. A distance is the exact value of the
  float the index returns. The conversion \<^verbatim>\<open>float(1 / (1 + distance))\<close> is floating-point
  arithmetic, which is not modelled: what it yields for a distance is the parameter
  \<open>float_similarity\<close>.
\<close>

type_synonym index = "string \<Rightarrow> int \<Rightarrow> (real list \<times> int list) option"

record 'm similarity_result =
  rank :: nat
  similarity_score :: real
  result_text :: string
  metadata :: 'm

definition py_index :: "'a list \<Rightarrow> int \<Rightarrow> error + 'a" where
  \<comment> \<open>\<^verbatim>\<open>xs[i]\<close>: positions \<open>0\<close> to \<open>len - 1\<close> from the front, \<open>-1\<close> down to \<open>-len\<close>
     from the back, and \<^verbatim>\<open>IndexError\<close> for every other index\<close>
  "py_index xs i =
     (if 0 \<le> i \<and> i < int (length xs) then Inr (xs ! nat i)
      else if i < 0 \<and> - int (length xs) \<le> i then Inr (xs ! nat (int (length xs) + i))
      else Inl IndexError)"

fun collect_results ::
  "(real \<Rightarrow> real) \<Rightarrow> 'm list \<Rightarrow> string list \<Rightarrow> nat \<Rightarrow> (real \<times> int) list \<Rightarrow>
     error + 'm similarity_result list" where
  \<comment> \<open>\<^verbatim>\<open>for i, (distance, idx) in enumerate(zip(distances[0], indices[0]))\<close>, from
     position \<open>i\<close> on\<close>
  "collect_results float_similarity metadatas texts i [] = Inr []"
| "collect_results float_similarity metadatas texts i ((distance, idx) # rest) =
     (if idx < int (length metadatas)
      then (case py_index texts idx of
              Inl e \<Rightarrow> Inl e
            | Inr t \<Rightarrow>
                (case py_index metadatas idx of
                   Inl e \<Rightarrow> Inl e
                 | Inr m \<Rightarrow>
                     (case collect_results float_similarity metadatas texts (i + 1) rest of
                        Inl e \<Rightarrow> Inl e
                      | Inr results \<Rightarrow>
                          Inr (\<lparr>rank = i + 1, similarity_score = float_similarity distance,
                                result_text = t, metadata = m\<rparr> # results))))
      else collect_results float_similarity metadatas texts (i + 1) rest)"

definition search_similar_documents ::
  "(real \<Rightarrow> real) \<Rightarrow> index option \<Rightarrow> 'm list \<Rightarrow> string list \<Rightarrow> string \<Rightarrow> int \<Rightarrow>
     'm similarity_result list" where
  \<comment> \<open>every exception inside the \<^verbatim>\<open>try\<close> ends in \<^verbatim>\<open>return []\<close>\<close>
  "search_similar_documents float_similarity index metadatas texts query k =
     (case index of
        None \<Rightarrow> []
      | Some search \<Rightarrow>
          if metadatas = [] then []
          else (case search query k of
                  None \<Rightarrow> []
                | Some (distances, indices) \<Rightarrow>
                    (case collect_results float_similarity metadatas texts 0
                            (zip distances indices) of
                       Inl e \<Rightarrow> []
                     | Inr results \<Rightarrow> results)))"

section \<open>Auxiliary notions for the proofs\<close>

definition term_bonus :: "string \<Rightarrow> string \<Rightarrow> string \<Rightarrow> real" where
  "term_bonus title abstract term =
     (if contains term title then 3 else if contains term abstract then 3 / 2 else 0)"

fun scored_copies ::
  "string set \<Rightarrow> string list \<Rightarrow> string \<Rightarrow> article list \<Rightarrow> error option \<times> article list" where
  "scored_copies qw mt fq [] = (None, [])"
| "scored_copies qw mt fq (a # as) =
     (case calculate_relevance_score a qw mt fq of
        Inl e \<Rightarrow> (Some e, [])
      | Inr score \<Rightarrow>
          (case scored_copies qw mt fq as of
             (e, cs) \<Rightarrow> (e, a(''relevance_score'' \<mapsto> PFloat score) # cs)))"

definition is_text :: "pyval option \<Rightarrow> bool" where
  "is_text v = (case v of None \<Rightarrow> True | Some (PStr s) \<Rightarrow> True | Some _ \<Rightarrow> False)"

definition readable :: "article \<Rightarrow> bool" where
  "readable a = (is_text (a ''title'') \<and> is_text (a ''abstract''))"

section \<open>Example data\<close>

definition article_exercise :: article where
  "article_exercise =
     [''title'' \<mapsto> PStr ''Exercise in adults'',
      ''abstract'' \<mapsto> PStr ''No abstract available'',
      ''url'' \<mapsto> PStr ''https://pubmed.ncbi.nlm.nih.gov/1'',
      ''pmid'' \<mapsto> PStr ''1'']"

definition article_metformin :: article where
  "article_metformin =
     [''title'' \<mapsto> PStr ''Metformin side effects in the elderly'',
      ''abstract'' \<mapsto> PStr ''Metformin is a drug.'',
      ''url'' \<mapsto> PStr ''https://pubmed.ncbi.nlm.nih.gov/2'',
      ''pmid'' \<mapsto> PStr ''2'']"

definition article_sleep :: article where
  "article_sleep =
     [''title'' \<mapsto> PStr ''Sleep and memory'',
      ''abstract'' \<mapsto> PStr ''No abstract available'',
      ''url'' \<mapsto> PStr ''https://pubmed.ncbi.nlm.nih.gov/3'',
      ''pmid'' \<mapsto> PStr ''3'']"

definition example_store :: store where
  "example_store =
     \<lparr>dicts = [article_exercise, article_metformin, article_sleep], lists = [[0, 1, 2]]\<rparr>"

definition example_query :: string where
  "example_query = ''Metformin side effects elderly''"

definition article_cohort :: article where
  "article_cohort =
     [''title'' \<mapsto> PStr ''Exercise in adults'',
      ''abstract'' \<mapsto> PStr ''A cohort study.'',
      ''pmid'' \<mapsto> PStr ''4'']"

definition article_diabetes_care :: article where
  "article_diabetes_care =
     [''title'' \<mapsto> PStr ''Diabetes care'',
      ''abstract'' \<mapsto> PStr ''Metformin helps.'',
      ''pmid'' \<mapsto> PStr ''5'']"

definition pmids :: "article list \<Rightarrow> pyval option list" where
  \<comment> \<open>the ids of a list of articles, in order\<close>
  "pmids as = map (\<lambda>a. a ''pmid'') as"

definition result_pmids :: "error + article list \<Rightarrow> pyval option list" where
  "result_pmids r = (case r of Inl e \<Rightarrow> [] | Inr as \<Rightarrow> pmids as)"

definition article_1 :: article where
  "article_1 = [''title'' \<mapsto> PStr ''First'', ''abstract'' \<mapsto> PStr ''One.'', ''pmid'' \<mapsto> PStr ''1'']"

definition article_2 :: article where
  "article_2 = [''title'' \<mapsto> PStr ''Second'', ''abstract'' \<mapsto> PStr ''Two.'', ''pmid'' \<mapsto> PStr ''2'']"

definition article_3 :: article where
  "article_3 = [''title'' \<mapsto> PStr ''Third'', ''abstract'' \<mapsto> PStr ''Three.'', ''pmid'' \<mapsto> PStr ''3'']"

definition overlapping_search :: search where
  \<comment> \<open>the two strategies share article 1\<close>
  "overlapping_search query n sort_by =
     (if sort_by = ''relevance'' then [article_1, article_2] else [article_1, article_3])"

definition article_unknown_a :: article where
  \<comment> \<open>a record parsed without a PMID element gets the pmid \<^verbatim>\<open>"Unknown"\<close>\<close>
  "article_unknown_a =
     [''title'' \<mapsto> PStr ''Fourth'', ''abstract'' \<mapsto> PStr ''Four.'', ''pmid'' \<mapsto> PStr ''Unknown'']"

definition article_unknown_b :: article where
  "article_unknown_b =
     [''title'' \<mapsto> PStr ''Fifth'', ''abstract'' \<mapsto> PStr ''Five.'', ''pmid'' \<mapsto> PStr ''Unknown'']"

definition repeating_search :: search where
  \<comment> \<open>the strategies share article 1, and the recency strategy lists two records of
     one pmid\<close>
  "repeating_search query n sort_by =
     (if sort_by = ''relevance'' then [article_1]
      else [article_1, article_unknown_a, article_unknown_b])"

definition retryable :: "bool \<Rightarrow> 'a get_result \<Rightarrow> bool" where
  \<comment> \<open>the attempt is answered as rate limited: status 429, or a request exception whose
     text contains "429"\<close>
  "retryable return_json got =
     (case got of
        Raises (RequestException msg) \<Rightarrow> contains ''429'' msg
      | Raises _ \<Rightarrow> False
      | Returns response \<Rightarrow>
          status_code response = 429 \<or>
          (case raise_for_status response of
             Some (RequestException msg) \<Rightarrow> contains ''429'' msg
           | Some _ \<Rightarrow> False
           | None \<Rightarrow>
               return_json \<and>
               (case json response of Inl (RequestException msg) \<Rightarrow> contains ''429'' msg
                | _ \<Rightarrow> False)))"





definition one_document_index :: index where
  \<comment> \<open>an index over one document, asked for two neighbours: the second row entry is
     the sentinel \<open>-1\<close> with the largest float distance\<close>
  "one_document_index query k = Some ([1 / 2, 340282346638528859811704183484516925440], [0, - 1])"

definition outcome :: "bool \<Rightarrow> 'a get_result \<Rightarrow> 'a step" where
  \<comment> \<open>how an attempt that is not answered as rate limited ends the call\<close>
  "outcome return_json got =
     (case got of
        Raises (OtherException msg) \<Rightarrow> Raise (OtherException msg)
      | Raises _ \<Rightarrow> Return None
      | Returns response \<Rightarrow>
          (case raise_for_status response of
             Some _ \<Rightarrow> Return None
           | None \<Rightarrow>
               if return_json
               then (case json response of
                       Inl (OtherException msg) \<Rightarrow> Raise (OtherException msg)
                     | Inl _ \<Rightarrow> Return None
                     | Inr v \<Rightarrow> Return (Some (Json v)))
               else Return (Some (Response response))))"



section \<open>Facts about the text primitives\<close>

lemma split_from_proper:
  "\<not> list_ex isspace cur \<Longrightarrow> w \<in> set (split_from cur s) \<Longrightarrow> proper_word w"
proof (induction s arbitrary: cur)
  case Nil
  then show ?case by (simp add: proper_word_def split: if_splits)
next
  case (Cons c cs)
  have nil: "\<not> list_ex isspace []" by simp
  show ?case
  proof (cases "isspace c")
    case True
    show ?thesis
    proof (cases "cur = []")
      case True
      with \<open>isspace c\<close> Cons.prems(2) have "w \<in> set (split_from [] cs)" by simp
      then show ?thesis by (rule Cons.IH [OF nil])
    next
      case False
      with \<open>isspace c\<close> Cons.prems(2) have "w = cur \<or> w \<in> set (split_from [] cs)" by simp
      then show ?thesis
      proof
        assume "w = cur"
        with False Cons.prems(1) show ?thesis by (simp add: proper_word_def)
      next
        assume "w \<in> set (split_from [] cs)"
        then show ?thesis by (rule Cons.IH [OF nil])
      qed
    qed
  next
    case False
    with Cons.prems(1) have ok: "\<not> list_ex isspace (cur @ [c])" by simp
    from False Cons.prems(2) have "w \<in> set (split_from (cur @ [c]) cs)" by simp
    then show ?thesis by (rule Cons.IH [OF ok])
  qed
qed

lemma split_proper: "w \<in> set (split s) \<Longrightarrow> proper_word w"
  using split_from_proper [of "[]" w s] by (simp add: split_def)

lemma split_from_append:
  "\<not> list_ex isspace w \<Longrightarrow> split_from cur (w @ rest) = split_from (cur @ w) rest"
  by (induction w arbitrary: cur) (auto simp: list_ex_iff)

lemma isspace_space: "isspace CHR '' ''"
  by (simp add: isspace_def whitespace_def)

lemma split_join:
  "list_all proper_word ws \<Longrightarrow> split (join ws) = ws"
proof (induction ws rule: join.induct)
  case 1
  then show ?case by (simp add: split_def)
next
  case (2 w)
  then have "split_from [] (w @ []) = split_from ([] @ w) []"
    by (intro split_from_append) (simp add: proper_word_def)
  with 2 show ?case by (simp add: split_def proper_word_def)
next
  case (3 w v ws)
  then have rest: "list_all proper_word (v # ws)" and "proper_word w"
    by simp_all
  then have w: "w \<noteq> []" "\<not> list_ex isspace w"
    by (simp_all add: proper_word_def)
  have "split (join (w # v # ws)) = split_from [] (w @ CHR '' '' # join (v # ws))"
    by (simp add: split_def)
  also have "\<dots> = split_from ([] @ w) (CHR '' '' # join (v # ws))"
    using w(2) by (rule split_from_append)
  also have "\<dots> = w # split (join (v # ws))"
    using w(1) by (simp add: isspace_space split_def)
  finally show ?case using 3 rest by simp
qed

lemma join_hd: "w \<noteq> [] \<Longrightarrow> hd (join (w # ws)) = hd w"
  by (cases ws) simp_all

lemma join_nonempty: "w \<noteq> [] \<Longrightarrow> join (w # ws) \<noteq> []"
  by (cases ws) simp_all

lemma join_last:
  "list_all proper_word ws \<Longrightarrow> ws \<noteq> [] \<Longrightarrow> last (join ws) = last (last ws)"
  by (induction ws rule: join.induct) (auto simp: proper_word_def join_nonempty)

lemma dropWhile_id: "xs = [] \<or> \<not> P (hd xs) \<Longrightarrow> dropWhile P xs = xs"
  by (cases xs) auto

lemma strip_join:
  assumes "list_all proper_word ws"
  shows "strip (join ws) = join ws"
proof (cases ws)
  case Nil
  then show ?thesis by (simp add: strip_def)
next
  case (Cons w vs)
  with assms have w: "w \<noteq> []" "\<not> isspace (hd w)"
    by (auto simp: proper_word_def list_ex_iff)
  have ne: "join ws \<noteq> []" using Cons w(1) by (simp add: join_nonempty)
  have "last ws \<in> set ws" using Cons by simp
  with assms have lw: "last ws \<noteq> []" "\<not> isspace (last (last ws))"
    by (auto simp: proper_word_def list_ex_iff list_all_iff)
  have front: "dropWhile isspace (join ws) = join ws"
    using Cons w by (intro dropWhile_id) (simp add: join_hd)
  have "hd (rev (join ws)) = last (last ws)"
    using ne assms Cons by (simp add: hd_rev join_last)
  then have rear: "dropWhile isspace (rev (join ws)) = rev (join ws)"
    using lw by (intro dropWhile_id) simp
  show ?thesis by (simp add: strip_def front rear)
qed

lemma filtered_words_proper: "list_all proper_word (filtered_words q)"
  by (auto simp: filtered_words_def cleaned_words_def list_all_iff split_proper)

lemma cleaned_result_join: "cleaned_result q = join (filtered_words q)"
  by (simp add: cleaned_result_def strip_join filtered_words_proper)

lemma split_cleaned_result: "split (cleaned_result q) = filtered_words q"
  by (simp add: cleaned_result_join split_join filtered_words_proper)

lemma fallback_take_proper: "list_all proper_word (take n (fallback_words q))"
  by (auto simp: fallback_words_def list_all_iff split_proper dest: in_set_takeD)

lemma split_clean_medical_query:
  "split (clean_medical_query q) =
     (if length (filtered_words q) < 2 then take 6 (fallback_words q) else filtered_words q)"
  by (simp add: clean_medical_query_def split_cleaned_result split_join fallback_take_proper)

section \<open>Facts about the scorer\<close>

lemma foldl_term_step:
  "foldl (term_step title abstract) score terms =
     score + (\<Sum>term\<leftarrow>terms. term_bonus title abstract term)"
  by (induction terms arbitrary: score) (simp_all add: term_step_def term_bonus_def)

lemma inter_words: "query_words \<inter> set ws = {w \<in> query_words. w \<in> set ws}"
  by auto

lemma score_text_reference:
  "score_text title abstract query_words medical_terms full_query =
     reference_score title abstract query_words medical_terms full_query"
  by (simp add: score_text_def reference_score_def Let_def foldl_term_step inter_words
      term_bonus_def)

lemma sum_bonus_cong:
  assumes "\<forall>term\<in>set terms. contains term title \<or> (\<not> contains term a \<and> \<not> contains term b)"
  shows "(\<Sum>term\<leftarrow>terms. term_bonus title a term) = (\<Sum>term\<leftarrow>terms. term_bonus title b term)"
  using assms by (induction terms) (auto simp: term_bonus_def)

lemma get_lower_upd_same: "get_lower (a(k \<mapsto> PStr x)) k = Inr (lower x)"
  by (simp add: get_lower_def)

lemma get_lower_upd_other: "k' \<noteq> k \<Longrightarrow> get_lower (a(k \<mapsto> v)) k' = get_lower a k'"
  by (simp add: get_lower_def)

text \<open>
  The order in which \<^verbatim>\<open>list(set(found_terms))\<close> lists the medical terms does not
  change a score.
\<close>

lemma score_text_terms_order:
  assumes "mset medical_terms = mset medical_terms'"
  shows "score_text title abstract query_words medical_terms full_query =
     score_text title abstract query_words medical_terms' full_query"
proof -
  have "mset (map (term_bonus title abstract) medical_terms) =
      mset (map (term_bonus title abstract) medical_terms')"
    using assms by (metis mset_map)
  then have "sum_list (map (term_bonus title abstract) medical_terms) =
      sum_list (map (term_bonus title abstract) medical_terms')"
    by (metis sum_mset_sum_list)
  then show ?thesis
    by (simp add: score_text_def Let_def foldl_term_step)
qed

section \<open>Facts about the scoring loop and the sort\<close>

lemma score_loop_copies:
  assumes "out < length (lists s)" and "\<forall>r\<in>set rs. r < length (dicts s)"
  shows "score_loop qw mt fq out rs s =
     (case scored_copies qw mt fq (map ((!) (dicts s)) rs) of
        (e, cs) \<Rightarrow>
          (e, s\<lparr>dicts := dicts s @ cs,
                lists := (lists s)[out := lists s ! out @
                           [length (dicts s) ..< length (dicts s) + length cs]]\<rparr>))"
  using assms
proof (induction rs arbitrary: s)
  case Nil
  then show ?case by simp
next
  case (Cons r rs)
  show ?case
  proof (cases "calculate_relevance_score (dicts s ! r) qw mt fq")
    case (Inl e)
    then show ?thesis using Cons.prems by simp
  next
    case (Inr score)
    define n0 where "n0 = length (dicts s)"
    define copy where "copy = (dicts s ! r)(''relevance_score'' \<mapsto> PFloat score)"
    define s3 where "s3 = s\<lparr>dicts := dicts s @ [copy],
        lists := (lists s)[out := lists s ! out @ [n0]]\<rparr>"
    have step: "score_loop qw mt fq out (r # rs) s = score_loop qw mt fq out rs s3"
      using Inr by (simp add: Let_def s3_def copy_def n0_def)
    have out3: "out < length (lists s3)" using Cons.prems(1) by (simp add: s3_def)
    have refs3: "\<forall>x\<in>set rs. x < length (dicts s3)" using Cons.prems(2) by (auto simp: s3_def less_Suc_eq)
    have same: "map ((!) (dicts s3)) rs = map ((!) (dicts s)) rs"
      using Cons.prems(2) by (simp add: s3_def nth_append)
    obtain e cs where sc: "scored_copies qw mt fq (map ((!) (dicts s)) rs) = (e, cs)"
      by (cases "scored_copies qw mt fq (map ((!) (dicts s)) rs)") simp
    have upt: "[n0] @ [Suc n0 ..< Suc (n0 + length cs)] = [n0 ..< Suc (n0 + length cs)]"
      using upt_conv_Cons [of n0 "Suc (n0 + length cs)"] by (simp del: upt_Suc)
    have "score_loop qw mt fq out rs s3 =
        (e, s3\<lparr>dicts := dicts s3 @ cs,
               lists := (lists s3)[out := lists s3 ! out @
                  [length (dicts s3) ..< length (dicts s3) + length cs]]\<rparr>)"
      using Cons.IH [OF out3 refs3] by (simp add: same sc)
    also have "\<dots> = (e, s\<lparr>dicts := dicts s @ copy # cs,
               lists := (lists s)[out := lists s ! out @ [n0 ..< Suc (n0 + length cs)]]\<rparr>)"
      using Cons.prems(1) upt by (simp add: s3_def n0_def del: upt_Suc)
    finally have lhs: "score_loop qw mt fq out (r # rs) s =
        (e, s\<lparr>dicts := dicts s @ copy # cs,
               lists := (lists s)[out := lists s ! out @ [n0 ..< Suc (n0 + length cs)]]\<rparr>)"
      using step by simp
    have rhs: "scored_copies qw mt fq (map ((!) (dicts s)) (r # rs)) = (e, copy # cs)"
      using Inr sc by (simp add: copy_def)
    show ?thesis
      unfolding lhs rhs by (simp add: n0_def del: upt_Suc)
  qed
qed

lemma scored_copies_ok:
  "scored_copies qw mt fq as = (None, cs) \<Longrightarrow>
     length cs = length as \<and>
     (\<forall>p<length as. \<exists>score. calculate_relevance_score (as ! p) qw mt fq = Inr score \<and>
        cs ! p = (as ! p)(''relevance_score'' \<mapsto> PFloat score))"
proof (induction as arbitrary: cs)
  case Nil
  then show ?case by simp
next
  case (Cons a as)
  then show ?case
    by (auto split: sum.splits prod.splits simp: nth_Cons split: nat.splits)
qed

lemma scored_copies_prefix:
  "scored_copies qw mt fq as = (e, cs) \<Longrightarrow> length cs \<le> length as"
  by (induction as arbitrary: e cs) (auto split: sum.splits prod.splits)

lemma readable_score:
  "readable a \<Longrightarrow> \<exists>score. calculate_relevance_score a qw mt fq = Inr score"
  by (auto simp: readable_def is_text_def calculate_relevance_score_def get_lower_def
      split: option.splits pyval.splits)

lemma scored_copies_readable:
  "\<forall>a\<in>set as. readable a \<Longrightarrow> \<exists>cs. scored_copies qw mt fq as = (None, cs)"
proof (induction as)
  case Nil
  then show ?case by simp
next
  case (Cons a as)
  then obtain cs where "scored_copies qw mt fq as = (None, cs)" by auto
  moreover have "readable a" using Cons.prems by simp
  then obtain score where "calculate_relevance_score a qw mt fq = Inr score"
    using readable_score [of a qw mt fq] by blast
  ultimately show ?case by simp
qed

lemma py_sort_reverse_mset: "mset (py_sort_reverse f xs) = mset xs"
  by (simp add: py_sort_reverse_def)

lemma py_sort_reverse_sorted: "sorted_wrt (\<lambda>a b. f b \<le> f a) (py_sort_reverse f xs)"
proof -
  have "sorted (map f (sort_key f (rev xs)))" by simp
  then have "sorted_wrt (\<lambda>a b. f a \<le> f b) (sort_key f (rev xs))"
    by (simp only: sorted_map)
  then show ?thesis by (simp add: py_sort_reverse_def sorted_wrt_rev)
qed

lemma py_sort_reverse_stable:
  "filter (\<lambda>x. f x = k) (py_sort_reverse f xs) = filter (\<lambda>x. f x = k) xs"
proof -
  have "filter (\<lambda>x. f x = k) (py_sort_reverse f xs) =
      rev (filter (\<lambda>x. f x = k) (sort_key f (rev xs)))"
    by (simp add: py_sort_reverse_def rev_filter)
  also have "\<dots> = rev (filter (\<lambda>x. f x = k) (rev xs))"
    by (simp only: sort_key_stable)
  finally show ?thesis by (simp add: rev_filter)
qed

lemma sorted_filter_nth:
  "sorted_wrt R (filter P xs) \<Longrightarrow> i < j \<Longrightarrow> j < length xs \<Longrightarrow> P (xs ! i) \<Longrightarrow> P (xs ! j)
     \<Longrightarrow> R (xs ! i) (xs ! j)"
proof (induction xs arbitrary: i j)
  case Nil
  then show ?case by simp
next
  case (Cons x xs)
  obtain j' where j: "j = Suc j'" using Cons.prems(2) by (cases j) auto
  have tl: "sorted_wrt R (filter P xs)" using Cons.prems(1) by (auto split: if_splits)
  show ?case
  proof (cases i)
    case 0
    then have "P x" using Cons.prems(4) by simp
    moreover have "xs ! j' \<in> set (filter P xs)" using Cons.prems(3,5) j by simp
    ultimately show ?thesis using Cons.prems(1) 0 j by auto
  next
    case (Suc i')
    then show ?thesis using Cons.IH [OF tl, of i' j'] Cons.prems j by simp
  qed
qed

lemma run_shape:
  assumes wf: "articles < length (lists s)" "\<forall>r\<in>set (lists s ! articles). r < length (dicts s)"
  shows "score_articles_by_relevance s articles q =
    (case scored_copies (set (split (lower q))) (extract_medical_terms (lower q)) (lower q)
            (map ((!) (dicts s)) (lists s ! articles)) of
       (Some e, cs) \<Rightarrow>
         (Inl e, s\<lparr>dicts := dicts s @ cs,
                   lists := lists s @ [[length (dicts s) ..< length (dicts s) + length cs]]\<rparr>)
     | (None, cs) \<Rightarrow>
         (Inr (length (lists s)),
          s\<lparr>dicts := dicts s @ cs,
            lists := lists s @ [py_sort_reverse (relevance (dicts s @ cs))
                       [length (dicts s) ..< length (dicts s) + length cs]]\<rparr>))"
proof -
  define s1 where "s1 = s\<lparr>lists := lists s @ [[]]\<rparr>"
  have out: "length (lists s) < length (lists s1)" by (simp add: s1_def)
  have ins: "lists s1 ! articles = lists s ! articles"
    using wf(1) by (simp add: s1_def nth_append)
  have refs: "\<forall>r\<in>set (lists s ! articles). r < length (dicts s1)"
    using wf(2) by (simp add: s1_def)
  note loop = score_loop_copies [OF out refs, of "set (split (lower q))"
      "extract_medical_terms (lower q)" "lower q"]
  show ?thesis
    unfolding score_articles_by_relevance_def Let_def s1_def [symmetric] ins loop
    by (auto split: prod.splits option.splits simp: s1_def)
qed

section \<open>Facts about the merge\<close>

lemma existing_pmids_set:
  "existing_pmids as = Inr existing \<Longrightarrow> Some ` existing = set (pmids as)"
  by (induction as arbitrary: existing)
     (auto simp: pmids_def subscript_def split: option.splits sum.splits)

lemma new_articles_filter:
  "new_articles existing as = Inr kept \<Longrightarrow>
     kept = filter (\<lambda>a. a ''pmid'' \<notin> Some ` existing) as"
  by (induction as arbitrary: kept)
     (auto simp: subscript_def split: option.splits sum.splits if_splits)

lemma existing_pmids_total:
  "\<forall>a\<in>set as. a ''pmid'' \<noteq> None \<Longrightarrow> \<exists>existing. existing_pmids as = Inr existing"
  by (induction as) (auto simp: subscript_def split: option.splits)

lemma new_articles_total:
  "\<forall>a\<in>set as. a ''pmid'' \<noteq> None \<Longrightarrow> \<exists>kept. new_articles existing as = Inr kept"
  by (induction as) (auto simp: subscript_def split: option.splits)

lemma distinct_merge:
  assumes "distinct (pmids primary)" and "distinct (pmids recent)"
  shows "distinct (pmids (primary @ filter (\<lambda>a. a ''pmid'' \<notin> set (pmids primary)) recent))"
proof -
  have "distinct (pmids (filter (\<lambda>a. a ''pmid'' \<notin> set (pmids primary)) recent))"
    using assms(2) unfolding pmids_def by (rule distinct_map_filter)
  moreover have "set (pmids primary) \<inter>
      set (pmids (filter (\<lambda>a. a ''pmid'' \<notin> set (pmids primary)) recent)) = {}"
    by (auto simp: pmids_def image_iff)
  ultimately show ?thesis using assms(1) by (simp add: pmids_def)
qed

lemma all_articles_unfold:
  "all_articles search query max_results =
     (let primary = search (clean_medical_query query) (min (max_results * 3) 15) ''relevance'';
          recent = (if int (length primary) < min (max_results * 3) 15
                    then search (clean_medical_query query)
                           (min (max_results * 3) 15 - int (length primary)) ''pub_date''
                    else [])
      in if recent \<noteq> []
         then (case existing_pmids primary of
                 Inl e \<Rightarrow> Inl e
               | Inr existing \<Rightarrow>
                   (case new_articles existing recent of
                      Inl e \<Rightarrow> Inl e
                    | Inr new \<Rightarrow> Inr (primary @ new)))
         else Inr primary)"
proof -
  define fetch where "fetch = min (max_results * 3) 15"
  define primary where "primary = search (clean_medical_query query) fetch ''relevance''"
  have collected: "(if primary \<noteq> [] then primary else []) = primary"
    by simp
  show ?thesis
    unfolding all_articles_def Let_def fetch_def [symmetric] primary_def [symmetric] collected
    by simp
qed

section \<open>Facts about the retry loop\<close>

lemma handler_eq:
  "handler mr a e =
     (if retryable rj (Raises e) then (if int a < mr - 1 then Continue else Return None)
      else outcome rj (Raises e))"
  by (cases e) (simp_all add: handler_def retryable_def outcome_def)
















section \<open>The returned list\<close>

lemma get_pubmed_articles_distinct:
  assumes fetched: "all_articles search query max_results = Inr fetched"
    and distinct: "distinct (pmids fetched)"
    and out: "get_pubmed_articles search query max_results = Inr returned"
  shows "distinct (pmids returned) \<and> set (pmids returned) \<subseteq> set (pmids fetched)"
proof (cases "fetched = []")
  case True
  then show ?thesis using fetched out by (simp add: get_pubmed_articles_def pmids_def)
next
  case False
  let ?s = "\<lparr>dicts = fetched, lists = [[0 ..< length fetched]]\<rparr>"
  let ?n = "length fetched"
  let ?qw = "set (split (lower query))" and ?mt = "extract_medical_terms (lower query)"
  have wf: "0 < length (lists ?s)" "\<forall>r\<in>set (lists ?s ! 0). r < length (dicts ?s)"
    by simp_all
  have ins: "map ((!) (dicts ?s)) (lists ?s ! 0) = fetched"
    by (simp add: map_nth)
  obtain e cs where sc: "scored_copies ?qw ?mt (lower query) fetched = (e, cs)"
    by (cases "scored_copies ?qw ?mt (lower query) fetched") simp
  note shape = run_shape [OF wf, of query, unfolded ins sc]
  have None: "e = None"
    using out fetched False shape by (cases e) (simp_all add: get_pubmed_articles_def)
  have ok: "length cs = ?n"
    "\<forall>p<?n. \<exists>score. calculate_relevance_score (fetched ! p) ?qw ?mt (lower query) = Inr score \<and>
        cs ! p = (fetched ! p)(''relevance_score'' \<mapsto> PFloat score)"
    using scored_copies_ok [of ?qw ?mt "lower query" fetched cs] sc None by simp_all
  define sorted_refs where
    "sorted_refs = py_sort_reverse (relevance (fetched @ cs)) [?n ..< ?n + ?n]"
  define kept where "kept = py_slice_to max_results sorted_refs"
  have returned: "returned = map ((!) (fetched @ cs)) kept"
    using out fetched False shape None ok(1)
    by (simp add: get_pubmed_articles_def kept_def sorted_refs_def)
  have perm: "mset sorted_refs = mset [?n ..< ?n + ?n]"
    by (simp add: sorted_refs_def py_sort_reverse_mset)
  then have refs: "set sorted_refs = {?n ..< ?n + ?n}" "distinct sorted_refs"
    by (metis mset_eq_setD set_upt, metis distinct_upt mset_eq_imp_distinct_iff)
  have kept: "set kept \<subseteq> {?n ..< ?n + ?n}" "distinct kept"
    using refs by (auto simp: kept_def py_slice_to_def dest: in_set_takeD)
  have bounds: "?n \<le> x \<and> x - ?n < ?n" if "x \<in> set kept" for x
  proof -
    from that kept(1) have "x \<in> {?n ..< ?n + ?n}" by blast
    then show ?thesis by auto
  qed
  have pm: "((fetched @ cs) ! x) ''pmid'' = (fetched ! (x - ?n)) ''pmid''" if "x \<in> set kept" for x
  proof -
    from bounds [OF that] have x: "?n \<le> x" "x - ?n < ?n" by simp_all
    then obtain score where "cs ! (x - ?n) = (fetched ! (x - ?n))(''relevance_score'' \<mapsto> PFloat score)"
      using ok(2) by blast
    then show ?thesis using x ok(1) by (simp add: nth_append)
  qed
  have pmids_eq: "pmids returned = map (\<lambda>x. (fetched ! (x - ?n)) ''pmid'') kept"
    using pm by (simp add: returned pmids_def)
  have inj: "inj_on (\<lambda>x. (fetched ! (x - ?n)) ''pmid'') (set kept)"
  proof (rule inj_onI)
    fix x y assume x: "x \<in> set kept" and y: "y \<in> set kept"
      and eq: "(fetched ! (x - ?n)) ''pmid'' = (fetched ! (y - ?n)) ''pmid''"
    from bounds [OF x] bounds [OF y]
    have b: "?n \<le> x" "x - ?n < ?n" "?n \<le> y" "y - ?n < ?n" by simp_all
    have "pmids fetched ! (x - ?n) = pmids fetched ! (y - ?n)"
      using eq b by (simp add: pmids_def)
    moreover have "x - ?n < length (pmids fetched)" "y - ?n < length (pmids fetched)"
      using b by (simp_all add: pmids_def)
    ultimately have "x - ?n = y - ?n"
      using distinct nth_eq_iff_index_eq [of "pmids fetched" "x - ?n" "y - ?n"] by blast
    then show "x = y" using b by simp
  qed
  have d: "distinct (pmids returned)"
    unfolding pmids_eq using kept(2) inj by (simp add: distinct_map)
  have sub: "set (pmids returned) \<subseteq> set (pmids fetched)"
  proof
    fix v assume "v \<in> set (pmids returned)"
    then obtain x where x: "x \<in> set kept" and v: "v = (fetched ! (x - ?n)) ''pmid''"
      unfolding pmids_eq by auto
    from bounds [OF x] have "x - ?n < ?n" by simp
    then show "v \<in> set (pmids fetched)" unfolding v pmids_def by simp
  qed
  show ?thesis using d sub by simp
qed

section \<open>Worked examples\<close>

lemma cleaned_words_example:
  "cleaned_words ''the treatment of diabetes'' = [''the'', ''treatment'', ''of'', ''diabetes'']"
  by code_simp

lemma fallback_words_example:
  "fallback_words ''metformin side effects elderly'' =
     [''metformin'', ''side'', ''effects'', ''elderly'']"
  by code_simp

lemma example_run:
  "fst (score_articles_by_relevance example_store 0 example_query) = Inr 1 \<and>
   lists (snd (score_articles_by_relevance example_store 0 example_query)) ! 1 = [4, 3, 5] \<and>
   map (relevance (dicts (snd (score_articles_by_relevance example_store 0 example_query))))
     [4, 3, 5] = [19, 1 / 2, 1 / 2]"
  by code_simp

lemma example_store_wf:
  "0 < length (lists example_store)"
  "\<forall>r\<in>set (lists example_store ! 0). r < length (dicts example_store)"
  by (simp_all add: example_store_def)

lemma example_store_readable:
  "\<forall>r\<in>set (lists example_store ! 0). readable (dicts example_store ! r)"
  by (simp add: example_store_def readable_def is_text_def article_exercise_def
      article_metformin_def article_sleep_def)

section \<open>Claims about \<^verbatim>\<open>clean_medical_query\<close>\<close>

text \<open>
  C3, as the code has it. The guard of the list comprehension reads the length of the
  word list before any stopword is taken out: when the cleaned query has at most three
  words every word is kept, otherwise every stopword of a, an, the, of, at, by is
  removed, however few words remain. A result of at least two words is returned as it
  is, so its words are exactly the filtered words.
\<close>

theorem clean_medical_query_stopwords:
  "filtered_words q =
     (if length (cleaned_words q) \<le> 3 then cleaned_words q
      else without_stopwords (cleaned_words q)) \<and>
   (2 \<le> length (filtered_words q) \<longrightarrow> split (clean_medical_query q) = filtered_words q)"
  by (auto simp: filtered_words_def without_stopwords_def split_clean_medical_query)

theorem clean_medical_query_stopwords_witness:
  "filtered_words ''the treatment of diabetes'' = [''treatment'', ''diabetes''] \<and>
   split (clean_medical_query ''the treatment of diabetes'') = [''treatment'', ''diabetes'']"
  using clean_medical_query_stopwords [of "''the treatment of diabetes''"]
  by (simp add: cleaned_words_example without_stopwords_def medical_stopwords_def)

text \<open>
  C3 as the spec words it fails: for the four-word query below, taking the stopwords out
  leaves two words, which is at most three, yet the stopwords are removed.
\<close>

theorem clean_medical_query_stopwords_counterexample:
  "length (without_stopwords (cleaned_words ''the treatment of diabetes'')) \<le> 3 \<and>
   filtered_words ''the treatment of diabetes'' \<noteq> cleaned_words ''the treatment of diabetes'' \<and>
   clean_medical_query ''the treatment of diabetes'' = ''treatment diabetes''"
  by code_simp

text \<open>
  C4, as the code has it. The fallback is taken exactly when the cleaned result has fewer
  than two words; it returns the first six words of the lowercased query with the phrases
  "what are the" and "what is the" removed. The returned string therefore has as many
  words as the cleaned result, or as the first six fallback words, and it has at least
  two words whenever the fallback word list has at least two.
\<close>

theorem clean_medical_query_fallback:
  "clean_medical_query q =
     (if length (split (cleaned_result q)) < 2 then join (take 6 (fallback_words q))
      else cleaned_result q) \<and>
   length (split (clean_medical_query q)) =
     (if length (split (cleaned_result q)) < 2 then min 6 (length (fallback_words q))
      else length (split (cleaned_result q))) \<and>
   (2 \<le> length (fallback_words q) \<longrightarrow> 2 \<le> length (split (clean_medical_query q)))"
proof -
  have words: "split (clean_medical_query q) =
      (if length (split (cleaned_result q)) < 2 then take 6 (fallback_words q)
       else split (cleaned_result q))"
    by (simp add: split_clean_medical_query split_cleaned_result)
  show ?thesis
    by (simp add: words min.commute) (simp add: clean_medical_query_def)
qed

theorem clean_medical_query_fallback_witness:
  "2 \<le> length (fallback_words ''metformin side effects elderly'') \<and>
   2 \<le> length (split (clean_medical_query ''metformin side effects elderly''))"
proof -
  have enough: "2 \<le> length (fallback_words ''metformin side effects elderly'')"
    by (simp add: fallback_words_example)
  moreover have "2 \<le> length (fallback_words ''metformin side effects elderly'') \<longrightarrow>
      2 \<le> length (split (clean_medical_query ''metformin side effects elderly''))"
    using clean_medical_query_fallback [of "''metformin side effects elderly''"] by blast
  ultimately show ?thesis by blast
qed

text \<open>
  C4 as the spec words it fails: a one-word question comes back as that one word.
\<close>

theorem clean_medical_query_fallback_counterexample:
  "''diabetes'' \<noteq> [] \<and>
   clean_medical_query ''diabetes'' = ''diabetes'' \<and>
   length (split (clean_medical_query ''diabetes'')) < 2"
  by code_simp

section \<open>Claims about \<^verbatim>\<open>calculate_relevance_score\<close>\<close>

text \<open>
  C2. For an article whose title and abstract can be read (each a string, or absent and
  then read as the empty string), \<^verbatim>\<open>calculate_relevance_score\<close> returns the reference
  sum over the lowercased title and abstract: 10 if the full query occurs in the title,
  else 5 if it occurs in the abstract; for each medical term 3 if it occurs in the title,
  else 1.5 if it occurs in the abstract; 2 for each query word in the title's word set and
  0.5 for each query word in the abstract's word set; 1 if the abstract is not empty and
  not "no abstract available"; and 0.5. The result is a function of the four arguments.
\<close>

theorem calculate_relevance_score_reference:
  assumes "get_lower article ''title'' = Inr title"
    and "get_lower article ''abstract'' = Inr abstract"
  shows "calculate_relevance_score article query_words medical_terms full_query =
     Inr (reference_score title abstract query_words medical_terms full_query)"
  using assms by (simp add: calculate_relevance_score_def score_text_reference)

theorem calculate_relevance_score_reference_witness:
  "get_lower article_metformin ''title'' = Inr ''metformin side effects in the elderly'' \<and>
   get_lower article_metformin ''abstract'' = Inr ''metformin is a drug.'' \<and>
   calculate_relevance_score article_metformin
     {''metformin'', ''side'', ''effects'', ''elderly''}
     [''side effects'', ''metformin'', ''elderly''] ''metformin side effects elderly'' =
   Inr (reference_score ''metformin side effects in the elderly'' ''metformin is a drug.''
     {''metformin'', ''side'', ''effects'', ''elderly''}
     [''side effects'', ''metformin'', ''elderly''] ''metformin side effects elderly'') \<and>
   reference_score ''metformin side effects in the elderly'' ''metformin is a drug.''
     {''metformin'', ''side'', ''effects'', ''elderly''}
     [''side effects'', ''metformin'', ''elderly''] ''metformin side effects elderly'' = 19"
proof -
  have title: "get_lower article_metformin ''title'' = Inr ''metformin side effects in the elderly''"
    by code_simp
  have abstract: "get_lower article_metformin ''abstract'' = Inr ''metformin is a drug.''"
    by code_simp
  note ref = calculate_relevance_score_reference [OF title abstract,
      of "{''metformin'', ''side'', ''effects'', ''elderly''}"
        "[''side effects'', ''metformin'', ''elderly'']" "''metformin side effects elderly''"]
  have "calculate_relevance_score article_metformin
     {''metformin'', ''side'', ''effects'', ''elderly''}
     [''side effects'', ''metformin'', ''elderly''] ''metformin side effects elderly'' = Inr 19"
    by code_simp
  with ref title abstract show ?thesis by simp
qed

text \<open>
  C9, as the code has it. Article \<open>b\<close> is article \<open>a\<close> with the abstract replaced by an
  empty or sentinel abstract, and the abstract of \<open>a\<close> is meaningful. The completeness
  bonus is the only difference between the two scores, and the difference is exactly 1,
  provided the abstracts give no lexical signal of their own: the full query and every
  medical term occur in the title or in neither abstract, and no query word is a word of
  either abstract.
\<close>

theorem completeness_bonus_delta:
  assumes title: "get_lower a ''title'' = Inr title"
    and abs_a: "a ''abstract'' = Some (PStr meaningful)"
    and real_a: "lower meaningful \<noteq> []" "lower meaningful \<noteq> ''no abstract available''"
    and b: "b = a(''abstract'' \<mapsto> PStr missing)"
    and miss: "lower missing = [] \<or> lower missing = ''no abstract available''"
    and phrase: "contains full_query title \<or>
        (\<not> contains full_query (lower meaningful) \<and> \<not> contains full_query (lower missing))"
    and terms: "\<forall>term\<in>set medical_terms. contains term title \<or>
        (\<not> contains term (lower meaningful) \<and> \<not> contains term (lower missing))"
    and words: "query_words \<inter> set (split (lower meaningful)) = {}"
        "query_words \<inter> set (split (lower missing)) = {}"
  shows "\<exists>score_a score_b.
      calculate_relevance_score a query_words medical_terms full_query = Inr score_a \<and>
      calculate_relevance_score b query_words medical_terms full_query = Inr score_b \<and>
      score_a - score_b = 1"
proof -
  have ga: "get_lower a ''abstract'' = Inr (lower meaningful)"
    using abs_a by (simp add: get_lower_def)
  have tb: "get_lower b ''title'' = Inr title"
    using title b by (simp add: get_lower_upd_other)
  have gb: "get_lower b ''abstract'' = Inr (lower missing)"
    using b by (simp add: get_lower_upd_same)
  let ?sa = "score_text title (lower meaningful) query_words medical_terms full_query"
  let ?sb = "score_text title (lower missing) query_words medical_terms full_query"
  have ca: "calculate_relevance_score a query_words medical_terms full_query = Inr ?sa"
    using title ga by (simp add: calculate_relevance_score_def)
  have cb: "calculate_relevance_score b query_words medical_terms full_query = Inr ?sb"
    using tb gb by (simp add: calculate_relevance_score_def)
  have sums: "(\<Sum>term\<leftarrow>medical_terms. term_bonus title (lower meaningful) term) =
      (\<Sum>term\<leftarrow>medical_terms. term_bonus title (lower missing) term)"
    using terms by (rule sum_bonus_cong)
  have "?sa - ?sb = 1"
    using phrase real_a miss words sums
    by (auto simp: score_text_def Let_def foldl_term_step)
  with ca cb show ?thesis by blast
qed

theorem completeness_bonus_delta_witness:
  "\<exists>score_a score_b.
     calculate_relevance_score article_cohort {''metformin'', ''elderly''}
       [''metformin'', ''elderly''] ''metformin elderly'' = Inr score_a \<and>
     calculate_relevance_score (article_cohort(''abstract'' \<mapsto> PStr ''No abstract available''))
       {''metformin'', ''elderly''} [''metformin'', ''elderly''] ''metformin elderly'' =
       Inr score_b \<and>
     score_a - score_b = 1"
proof (rule completeness_bonus_delta [where title = "''exercise in adults''"
      and meaningful = "''A cohort study.''" and missing = "''No abstract available''"])
  show "get_lower article_cohort ''title'' = Inr ''exercise in adults''"
    by code_simp
  show "article_cohort ''abstract'' = Some (PStr ''A cohort study.'')"
    by (simp add: article_cohort_def)
  show "lower ''A cohort study.'' \<noteq> []" by code_simp
  show "lower ''A cohort study.'' \<noteq> ''no abstract available''" by code_simp
  show "article_cohort(''abstract'' \<mapsto> PStr ''No abstract available'') =
      article_cohort(''abstract'' \<mapsto> PStr ''No abstract available'')" by (rule refl)
  show "lower ''No abstract available'' = [] \<or>
      lower ''No abstract available'' = ''no abstract available''" by code_simp
  show "contains ''metformin elderly'' ''exercise in adults'' \<or>
      \<not> contains ''metformin elderly'' (lower ''A cohort study.'') \<and>
      \<not> contains ''metformin elderly'' (lower ''No abstract available'')" by code_simp
  show "\<forall>term\<in>set [''metformin'', ''elderly''].
      contains term ''exercise in adults'' \<or>
      \<not> contains term (lower ''A cohort study.'') \<and>
      \<not> contains term (lower ''No abstract available'')" by code_simp
  show "{''metformin'', ''elderly''} \<inter> set (split (lower ''A cohort study.'')) = {}"
    by code_simp
  show "{''metformin'', ''elderly''} \<inter> set (split (lower ''No abstract available'')) = {}"
    by code_simp
qed

text \<open>
  C9 as the spec words it fails: with the query "metformin", a real abstract that
  mentions metformin also earns the phrase, term and word weights, and the two scores
  differ by 8.
\<close>

theorem completeness_bonus_delta_counterexample:
  "calculate_relevance_score article_diabetes_care {''metformin''} [''metformin'']
     ''metformin'' = Inr (17 / 2) \<and>
   calculate_relevance_score
     (article_diabetes_care(''abstract'' \<mapsto> PStr ''No abstract available''))
     {''metformin''} [''metformin''] ''metformin'' = Inr (1 / 2) \<and>
   (17 / 2 - 1 / 2 :: real) \<noteq> 1"
proof -
  have "calculate_relevance_score article_diabetes_care {''metformin''} [''metformin'']
     ''metformin'' = Inr (17 / 2)"
    by code_simp
  moreover have "calculate_relevance_score
     (article_diabetes_care(''abstract'' \<mapsto> PStr ''No abstract available''))
     {''metformin''} [''metformin''] ''metformin'' = Inr (1 / 2)"
    by code_simp
  ultimately show ?thesis by simp
qed

section \<open>Claims about \<^verbatim>\<open>score_articles_by_relevance\<close>\<close>

text \<open>
  C10. A call of \<^verbatim>\<open>score_articles_by_relevance\<close> on a list of articles leaves every dict
  and every list that existed before the call as it was, whether it returns or raises:
  the input dicts keep all their fields and the input list keeps its elements. When it
  returns, the result is a new list; its elements are the new dicts made during the call,
  one for each input position \<open>p\<close>, and the new dict for position \<open>p\<close> is the input
  article at \<open>p\<close> with only the key \<^verbatim>\<open>relevance_score\<close> set, to that article's score.
\<close>

theorem score_articles_by_relevance_frame:
  assumes "articles < length (lists s)"
    and "\<forall>r\<in>set (lists s ! articles). r < length (dicts s)"
    and "score_articles_by_relevance s articles q = (res, s')"
  shows "take (length (dicts s)) (dicts s') = dicts s \<and>
     take (length (lists s)) (lists s') = lists s \<and>
     (\<forall>out. res = Inr out \<longrightarrow>
        out = length (lists s) \<and>
        mset (lists s' ! out) =
          mset [length (dicts s) ..< length (dicts s) + length (lists s ! articles)] \<and>
        (\<forall>p<length (lists s ! articles). \<exists>score.
           calculate_relevance_score (dicts s ! (lists s ! articles ! p))
             (set (split (lower q))) (extract_medical_terms (lower q)) (lower q) = Inr score \<and>
           dicts s' ! (length (dicts s) + p) =
             (dicts s ! (lists s ! articles ! p))(''relevance_score'' \<mapsto> PFloat score)))"
proof -
  let ?qw = "set (split (lower q))" and ?mt = "extract_medical_terms (lower q)"
  let ?ins = "map ((!) (dicts s)) (lists s ! articles)"
  obtain e cs where sc: "scored_copies ?qw ?mt (lower q) ?ins = (e, cs)"
    by (cases "scored_copies ?qw ?mt (lower q) ?ins") simp
  note shape = run_shape [OF assms(1,2), of q]
  show ?thesis
  proof (cases e)
    case None
    have ok: "length cs = length ?ins"
      "\<forall>p<length ?ins. \<exists>score. calculate_relevance_score (?ins ! p) ?qw ?mt (lower q) = Inr score \<and>
          cs ! p = (?ins ! p)(''relevance_score'' \<mapsto> PFloat score)"
      using scored_copies_ok [of ?qw ?mt "lower q" ?ins cs] sc None by simp_all
    have res: "res = Inr (length (lists s))"
      and s': "s' = s\<lparr>dicts := dicts s @ cs,
          lists := lists s @ [py_sort_reverse (relevance (dicts s @ cs))
              [length (dicts s) ..< length (dicts s) + length cs]]\<rparr>"
      using shape assms(3) sc None by simp_all
    show ?thesis
      using ok by (simp add: res s' py_sort_reverse_mset nth_append)
  next
    case (Some err)
    have "res = Inl err"
      and "s' = s\<lparr>dicts := dicts s @ cs,
          lists := lists s @ [[length (dicts s) ..< length (dicts s) + length cs]]\<rparr>"
      using shape assms(3) sc Some by simp_all
    then show ?thesis by simp
  qed
qed

theorem score_articles_by_relevance_frame_witness:
  "take (length (dicts example_store))
     (dicts (snd (score_articles_by_relevance example_store 0 example_query))) =
     dicts example_store \<and>
   take (length (lists example_store))
     (lists (snd (score_articles_by_relevance example_store 0 example_query))) =
     lists example_store \<and>
   fst (score_articles_by_relevance example_store 0 example_query) = Inr 1 \<and>
   mset (lists (snd (score_articles_by_relevance example_store 0 example_query)) ! 1) =
     mset [3 ..< 6]"
proof -
  let ?run = "score_articles_by_relevance example_store 0 example_query"
  have run: "?run = (fst ?run, snd ?run)" by simp
  note frame = score_articles_by_relevance_frame [OF example_store_wf run]
  have res: "fst ?run = Inr 1" using example_run by blast
  have sizes: "length (dicts example_store) = 3" "length (lists example_store) = 1"
    "length (lists example_store ! 0) = 3"
    by (simp_all add: example_store_def)
  from frame res have "mset (lists (snd ?run) ! 1) =
      mset [length (dicts example_store) ..<
        length (dicts example_store) + length (lists example_store ! 0)]"
    by blast
  then have "mset (lists (snd ?run) ! 1) = mset [3 ..< 6]"
    by (simp only: sizes) simp
  with frame res show ?thesis by blast
qed

text \<open>
  C7. When every input article has a readable title and abstract the call returns. The
  returned list is in descending order of \<^verbatim>\<open>relevance_score\<close>, and the sort is stable:
  for every score, the records with that score stand in the order in which their
  originals were retrieved (the copy of input position \<open>p\<close> is the dict at the old store
  size plus \<open>p\<close>, so a smaller address is an earlier retrieval), and the sort key of that
  copy is the score of its original.
\<close>

theorem score_articles_by_relevance_sorted:
  assumes "articles < length (lists s)"
    and "\<forall>r\<in>set (lists s ! articles). r < length (dicts s)"
    and "score_articles_by_relevance s articles q = (res, s')"
  shows "((\<forall>r\<in>set (lists s ! articles). readable (dicts s ! r)) \<longrightarrow>
       res = Inr (length (lists s))) \<and>
     (\<forall>out. res = Inr out \<longrightarrow>
        sorted_wrt (\<lambda>a b. relevance (dicts s') b \<le> relevance (dicts s') a) (lists s' ! out) \<and>
        (\<forall>k. filter (\<lambda>x. relevance (dicts s') x = k) (lists s' ! out) =
             filter (\<lambda>x. relevance (dicts s') x = k)
               [length (dicts s) ..< length (dicts s) + length (lists s ! articles)]) \<and>
        (\<forall>i j. i < j \<and> j < length (lists s' ! out) \<and>
             relevance (dicts s') (lists s' ! out ! i) = relevance (dicts s') (lists s' ! out ! j)
           \<longrightarrow> lists s' ! out ! i < lists s' ! out ! j) \<and>
        (\<forall>p<length (lists s ! articles).
           calculate_relevance_score (dicts s ! (lists s ! articles ! p))
             (set (split (lower q))) (extract_medical_terms (lower q)) (lower q) =
           Inr (relevance (dicts s') (length (dicts s) + p))))"
proof -
  let ?qw = "set (split (lower q))" and ?mt = "extract_medical_terms (lower q)"
  let ?ins = "map ((!) (dicts s)) (lists s ! articles)"
  let ?n0 = "length (dicts s)"
  obtain e cs where sc: "scored_copies ?qw ?mt (lower q) ?ins = (e, cs)"
    by (cases "scored_copies ?qw ?mt (lower q) ?ins") simp
  note shape = run_shape [OF assms(1,2), of q]
  have returns: "res = Inr (length (lists s))"
    if "\<forall>r\<in>set (lists s ! articles). readable (dicts s ! r)"
  proof -
    from that have "\<forall>a\<in>set ?ins. readable a" by simp
    then obtain cs' where "scored_copies ?qw ?mt (lower q) ?ins = (None, cs')"
      using scored_copies_readable [of ?ins ?qw ?mt "lower q"] by blast
    then show ?thesis using shape assms(3) by simp
  qed
  have sorted_part: "sorted_wrt (\<lambda>a b. relevance (dicts s') b \<le> relevance (dicts s') a) (lists s' ! out) \<and>
        (\<forall>k. filter (\<lambda>x. relevance (dicts s') x = k) (lists s' ! out) =
             filter (\<lambda>x. relevance (dicts s') x = k)
               [?n0 ..< ?n0 + length (lists s ! articles)]) \<and>
        (\<forall>i j. i < j \<and> j < length (lists s' ! out) \<and>
             relevance (dicts s') (lists s' ! out ! i) = relevance (dicts s') (lists s' ! out ! j)
           \<longrightarrow> lists s' ! out ! i < lists s' ! out ! j) \<and>
        (\<forall>p<length (lists s ! articles).
           calculate_relevance_score (dicts s ! (lists s ! articles ! p)) ?qw ?mt (lower q) =
           Inr (relevance (dicts s') (?n0 + p)))"
    if out: "res = Inr out" for out
  proof -
    have None: "e = None"
      using shape assms(3) sc out by (cases e) simp_all
    have ok: "length cs = length (lists s ! articles)"
      "\<forall>p<length ?ins. \<exists>score. calculate_relevance_score (?ins ! p) ?qw ?mt (lower q) = Inr score \<and>
          cs ! p = (?ins ! p)(''relevance_score'' \<mapsto> PFloat score)"
      using scored_copies_ok [of ?qw ?mt "lower q" ?ins cs] sc None by simp_all
    let ?copies = "[?n0 ..< ?n0 + length (lists s ! articles)]"
    let ?key = "relevance (dicts s @ cs)"
    have res: "out = length (lists s)"
      and ds: "dicts s' = dicts s @ cs"
      and ls: "lists s' ! out = py_sort_reverse ?key ?copies"
      using shape assms(3) sc None out ok(1) by simp_all
    have stable: "filter (\<lambda>x. ?key x = k) (py_sort_reverse ?key ?copies) =
        filter (\<lambda>x. ?key x = k) ?copies" for k
      by (rule py_sort_reverse_stable)
    have order: "py_sort_reverse ?key ?copies ! i < py_sort_reverse ?key ?copies ! j"
      if "i < j" "j < length (py_sort_reverse ?key ?copies)"
        "?key (py_sort_reverse ?key ?copies ! i) = ?key (py_sort_reverse ?key ?copies ! j)" for i j
    proof -
      let ?k = "?key (py_sort_reverse ?key ?copies ! j)"
      have "sorted_wrt (<) (filter (\<lambda>x. ?key x = ?k) ?copies)"
        by (rule sorted_wrt_filter) simp
      then have srt: "sorted_wrt (<) (filter (\<lambda>x. ?key x = ?k) (py_sort_reverse ?key ?copies))"
        by (simp only: stable)
      show ?thesis
        using sorted_filter_nth [OF srt that(1) that(2)] that(3) by simp
    qed
    have scores: "calculate_relevance_score (dicts s ! (lists s ! articles ! p)) ?qw ?mt (lower q) =
        Inr (?key (?n0 + p))" if p: "p < length (lists s ! articles)" for p
    proof -
      from ok(2) p obtain score where
        sc1: "calculate_relevance_score (?ins ! p) ?qw ?mt (lower q) = Inr score" and
        sc2: "cs ! p = (?ins ! p)(''relevance_score'' \<mapsto> PFloat score)"
        by auto
      have "?key (?n0 + p) = score"
        by (simp add: relevance_def sc2)
      with sc1 p show ?thesis by simp
    qed
    have c1: "sorted_wrt (\<lambda>a b. ?key b \<le> ?key a) (py_sort_reverse ?key ?copies)"
      by (rule py_sort_reverse_sorted)
    have c2: "\<forall>k. filter (\<lambda>x. ?key x = k) (py_sort_reverse ?key ?copies) =
        filter (\<lambda>x. ?key x = k) ?copies"
      using stable by blast
    have c3: "\<forall>i j. i < j \<and> j < length (py_sort_reverse ?key ?copies) \<and>
        ?key (py_sort_reverse ?key ?copies ! i) = ?key (py_sort_reverse ?key ?copies ! j)
        \<longrightarrow> py_sort_reverse ?key ?copies ! i < py_sort_reverse ?key ?copies ! j"
      using order by blast
    have c4: "\<forall>p<length (lists s ! articles).
        calculate_relevance_score (dicts s ! (lists s ! articles ! p)) ?qw ?mt (lower q) =
        Inr (?key (?n0 + p))"
      using scores by blast
    show ?thesis
      unfolding ds ls by (rule conjI [OF c1 conjI [OF c2 conjI [OF c3 c4]]])
  qed
  show ?thesis using returns sorted_part by blast
qed

theorem score_articles_by_relevance_sorted_witness:
  "fst (score_articles_by_relevance example_store 0 example_query) = Inr 1 \<and>
   sorted_wrt
     (\<lambda>a b. relevance (dicts (snd (score_articles_by_relevance example_store 0 example_query))) b
        \<le> relevance (dicts (snd (score_articles_by_relevance example_store 0 example_query))) a)
     (lists (snd (score_articles_by_relevance example_store 0 example_query)) ! 1) \<and>
   lists (snd (score_articles_by_relevance example_store 0 example_query)) ! 1 = [4, 3, 5] \<and>
   map (relevance (dicts (snd (score_articles_by_relevance example_store 0 example_query))))
     [4, 3, 5] = [19, 1 / 2, 1 / 2]"
proof -
  let ?run = "score_articles_by_relevance example_store 0 example_query"
  have run: "?run = (fst ?run, snd ?run)" by simp
  note sorted = score_articles_by_relevance_sorted [OF example_store_wf run]
  have "fst ?run = Inr (length (lists example_store))"
    using sorted example_store_readable by blast
  then have res: "fst ?run = Inr 1" by (simp add: example_store_def)
  with sorted have "sorted_wrt
      (\<lambda>a b. relevance (dicts (snd ?run)) b \<le> relevance (dicts (snd ?run)) a)
      (lists (snd ?run) ! 1)"
    by blast
  with res example_run show ?thesis by blast
qed

section \<open>Claims about \<^verbatim>\<open>get_pubmed_articles\<close>\<close>

text \<open>
  C5, as the code has it. The merged list is the relevance list followed by those
  articles of the recency list whose pmid does not occur in the relevance list (the
  recency list is empty when the relevance list already fills the quota): every recency
  article whose pmid is already collected is dropped. The merged list therefore contains
  each pmid at most once whenever neither strategy's own list repeats a pmid, and so
  does the list that \<^verbatim>\<open>get_pubmed_articles\<close> returns after scoring and truncation.
\<close>

theorem all_articles_dedup:
  assumes run: "all_articles search query max_results = Inr merged"
    and primary: "primary = search (clean_medical_query query) (min (max_results * 3) 15) ''relevance''"
    and recent: "recent = (if int (length primary) < min (max_results * 3) 15
          then search (clean_medical_query query)
                 (min (max_results * 3) 15 - int (length primary)) ''pub_date''
          else [])"
  shows "merged = primary @ filter (\<lambda>a. a ''pmid'' \<notin> set (pmids primary)) recent \<and>
     (distinct (pmids primary) \<and> distinct (pmids recent) \<longrightarrow>
        distinct (pmids merged) \<and>
        (\<forall>returned. get_pubmed_articles search query max_results = Inr returned \<longrightarrow>
           distinct (pmids returned)))"
proof -
  have shape: "all_articles search query max_results =
      (if recent \<noteq> []
       then (case existing_pmids primary of
               Inl e \<Rightarrow> Inl e
             | Inr existing \<Rightarrow>
                 (case new_articles existing recent of
                    Inl e \<Rightarrow> Inl e
                  | Inr new \<Rightarrow> Inr (primary @ new)))
       else Inr primary)"
    unfolding all_articles_unfold Let_def primary [symmetric] recent [symmetric] ..
  have merged: "merged = primary @ filter (\<lambda>a. a ''pmid'' \<notin> set (pmids primary)) recent"
  proof (cases "recent = []")
    case True
    then show ?thesis using run shape by simp
  next
    case False
    with run shape obtain existing where ex: "existing_pmids primary = Inr existing"
      by (cases "existing_pmids primary") simp_all
    with False run shape obtain new where nw: "new_articles existing recent = Inr new"
      by (cases "new_articles existing recent") simp_all
    have m: "merged = primary @ new" using False run shape ex nw by simp
    show ?thesis
      using new_articles_filter [OF nw] existing_pmids_set [OF ex] m by simp
  qed
  have "distinct (pmids merged)" if "distinct (pmids primary)" "distinct (pmids recent)"
    using distinct_merge [OF that] merged by simp
  moreover have "distinct (pmids returned)"
    if "distinct (pmids merged)" "get_pubmed_articles search query max_results = Inr returned"
    for returned
    using get_pubmed_articles_distinct [OF run that] by blast
  ultimately show ?thesis using merged by blast
qed

theorem all_articles_dedup_witness:
  "all_articles overlapping_search ''metformin'' 5 = Inr [article_1, article_2, article_3] \<and>
   distinct (pmids [article_1, article_2, article_3])"
proof -
  have run: "all_articles overlapping_search ''metformin'' 5 =
      Inr [article_1, article_2, article_3]"
    by (simp add: all_articles_def Let_def overlapping_search_def subscript_def
        article_1_def article_2_def article_3_def)
  have primary: "distinct (pmids (overlapping_search (clean_medical_query ''metformin'')
      (min (5 * 3) 15) ''relevance''))"
    by (simp add: overlapping_search_def pmids_def article_1_def article_2_def)
  have recent: "distinct (pmids
      (if int (length (overlapping_search (clean_medical_query ''metformin'')
            (min (5 * 3) 15) ''relevance'')) < min (5 * 3) 15
       then overlapping_search (clean_medical_query ''metformin'')
          (min (5 * 3) 15 - int (length (overlapping_search (clean_medical_query ''metformin'')
            (min (5 * 3) 15) ''relevance''))) ''pub_date''
       else []))"
    by (simp add: overlapping_search_def pmids_def article_1_def article_3_def)
  from all_articles_dedup [OF run refl refl] primary recent
  have "distinct (pmids [article_1, article_2, article_3])" by blast
  with run show ?thesis by blast
qed

text \<open>
  C5 as the spec words it fails: the two lists below share article 1, and the recency
  list holds two records of the same pmid; the merged list keeps both.
\<close>

theorem all_articles_dedup_counterexample:
  "pmids (repeating_search (clean_medical_query ''metformin'') 15 ''relevance'') =
     [Some (PStr ''1'')] \<and>
   pmids (repeating_search (clean_medical_query ''metformin'') 14 ''pub_date'') =
     [Some (PStr ''1''), Some (PStr ''Unknown''), Some (PStr ''Unknown'')] \<and>
   result_pmids (all_articles repeating_search ''metformin'' 5) =
     [Some (PStr ''1''), Some (PStr ''Unknown''), Some (PStr ''Unknown'')] \<and>
   \<not> distinct (result_pmids (all_articles repeating_search ''metformin'' 5))"
  by (simp add: all_articles_def Let_def repeating_search_def subscript_def result_pmids_def
      pmids_def article_1_def article_unknown_a_def article_unknown_b_def)

section \<open>Claims about \<^verbatim>\<open>make_request_with_retry\<close>\<close>








section \<open>Claims about \<^verbatim>\<open>search_similar_documents\<close>\<close>

text \<open>
  C1 does not hold of the code. The guard \<^verbatim>\<open>idx < len(metadatas)\<close> bounds the neighbour
  index from above only, so the sentinel \<open>-1\<close>, which the neighbour search returns when
  \<open>k\<close> exceeds the index size, passes it; Python reads \<^verbatim>\<open>texts[-1]\<close> and
  \<^verbatim>\<open>metadatas[-1]\<close> as the last document, and a second result is built from the
  sentinel. Below, the index holds one document and two neighbours are asked for;
  whatever score the float conversion gives, two results come back.
\<close>

theorem search_similar_documents_sentinel:
  "search_similar_documents float_similarity (Some one_document_index) [''m0''] [''t0'']
     ''query'' 2 =
     [\<lparr>rank = 1, similarity_score = float_similarity (1 / 2),
        result_text = ''t0'', metadata = ''m0''\<rparr>,
      \<lparr>rank = 2, similarity_score = float_similarity 340282346638528859811704183484516925440,
        result_text = ''t0'', metadata = ''m0''\<rparr>]"
  by (simp add: search_similar_documents_def one_document_index_def py_index_def)

end
